theory Spec2Isabelle
  imports Complex_Main "HOL-Library.Sublist"
begin

section \<open>Exceptions\<close>

text \<open>
  The exceptions the modelled code can raise. \<open>ValidationError\<close> is pydantic's, raised
  by a model constructor (also when a field validator raises \<open>ValueError\<close>).
  \<open>NoSuchObject\<close> is not a Python exception: it marks the dereference of an address
  that holds no object, which a Python reference can never be.
\<close>

datatype error =
  ValueError | KeyError | ValidationError | AttributeError | OverflowError | NoSuchObject

section \<open>attackable.py: the Combat capability\<close>

text \<open>
  \<open>class Combat\<close> declares \<open>health: int\<close> and \<open>damage: int\<close>. Player and Enemy
  inherit from it, so both are extensions of this record and the methods below apply
  to either. Console output (\<open>print\<close>) is not modelled.
\<close>

record combat =
  health :: int
  damage :: int

definition take_damage :: "'a combat_scheme \<Rightarrow> int \<Rightarrow> 'a combat_scheme" where
  "take_damage self dmg = self\<lparr>health := health self - dmg\<rparr>"

definition is_alive :: "'a combat_scheme \<Rightarrow> bool" where
  "is_alive self \<longleftrightarrow> health self > 0"

text \<open>
  \<open>int(self.damage * 0.8)\<close> is computed in double precision. Python converts
  the integer to a double (round to nearest, ties to even, 53 significant bits;
  \<open>OverflowError\<close> when the result is beyond the largest double), multiplies it by
  the double nearest to 0.8, which is \<open>3602879701896397 / 2^52\<close>, rounding the
  product in the same way, and \<open>int\<close> truncates the result towards zero.
\<close>

fun bit_length :: "nat \<Rightarrow> nat" where
  "bit_length n = (if n = 0 then 0 else Suc (bit_length (n div 2)))"

declare bit_length.simps [simp del]

text \<open>Rounding a natural number to 53 significant bits, to nearest, ties to even.\<close>

definition round_to_53 :: "nat \<Rightarrow> nat" where
  "round_to_53 n =
     (let b = bit_length n
      in if b \<le> 53 then n
         else (let sh = b - 53; q = n div 2 ^ sh; r = n mod 2 ^ sh; half = 2 ^ (sh - 1)
               in (if half < r \<or> (r = half \<and> odd q) then q + 1 else q) * 2 ^ sh))"

text \<open>\<open>float(i)\<close> for an integer \<open>i\<close>; the double it yields is itself an integer.\<close>

definition float_of_int :: "int \<Rightarrow> error + int" where
  "float_of_int i =
     (let m = round_to_53 (nat \<bar>i\<bar>)
      in if 2 ^ 1024 \<le> m then Inl OverflowError else Inr (sgn i * int m))"

text \<open>
  \<open>int(d * 0.8)\<close>: the exact product of the double \<open>x = float(d)\<close> and the double
  0.8 is \<open>x * 3602879701896397 / 2^52\<close>; it is rounded to 53 significant bits and
  truncated.
\<close>

definition int_mul_08 :: "int \<Rightarrow> error + int" where
  "int_mul_08 d =
     (case float_of_int d of
        Inl e \<Rightarrow> Inl e
      | Inr x \<Rightarrow>
          Inr (sgn x * int (round_to_53 (nat \<bar>x\<bar> * 3602879701896397) div 2 ^ 52)))"

text \<open>
  \<open>random.randint(a, b)\<close> is \<open>randrange(a, b + 1)\<close>: it raises \<open>ValueError\<close> on an
  empty range and otherwise returns \<open>a + _randbelow(b - a + 1)\<close>. The state of the
  generator is the argument \<open>r\<close>, an arbitrary natural number reduced into the width.
\<close>

definition randint :: "int \<Rightarrow> int \<Rightarrow> nat \<Rightarrow> error + int" where
  "randint a b r =
     (if b < a then Inl ValueError else Inr (a + int (r mod nat (b - a + 1))))"

definition attack :: "'a combat_scheme \<Rightarrow> 'b combat_scheme \<Rightarrow> nat \<Rightarrow> error + 'b combat_scheme" where
  "attack self target r =
     (if is_alive self then
        (case int_mul_08 (damage self) of
           Inl e \<Rightarrow> Inl e
         | Inr lowest \<Rightarrow>
             (case randint lowest (damage self) r of
                Inl e \<Rightarrow> Inl e
              | Inr damage_dealt \<Rightarrow> Inr (take_damage target damage_dealt)))
      else Inr target)"

section \<open>room.py: NPC, Enemy, Wizard, Player\<close>

type_synonym addr = nat

record enemy = combat +
  enemy_description :: string

record wizard =
  wizard_description :: string
  bonus_damage :: int
  healing_power :: int

text \<open>The three classes of the NPC hierarchy; a plain NPC has its description only.\<close>

datatype npc = NPC string | Enemy enemy | Wizard wizard

record player = combat +
  name :: string
  current_room :: addr

text \<open>
  \<open>Enemy.validate_health\<close> is the only field validator of \<open>Enemy\<close>; pydantic runs it
  in the constructor and reports its \<open>ValueError\<close> as a \<open>ValidationError\<close>.
\<close>

definition validate_health :: "int \<Rightarrow> error + int" where
  "validate_health v = (if v \<le> 0 then Inl ValueError else Inr v)"

definition Enemy_init :: "string \<Rightarrow> int \<Rightarrow> int \<Rightarrow> error + enemy" where
  "Enemy_init description h d =
     (case validate_health h of
        Inl e \<Rightarrow> Inl ValidationError
      | Inr v \<Rightarrow> Inr \<lparr>health = v, damage = d, enemy_description = description\<rparr>)"

text \<open>
  \<open>Wizard.give_bonus(self, player)\<close> mutates the player; the wizard is returned as
  well, so that what the method does to \<open>self\<close> is part of the result.
\<close>

definition give_bonus :: "wizard \<Rightarrow> player \<Rightarrow> wizard \<times> player" where
  "give_bonus self p =
     (let p1 = p\<lparr>health := health p + healing_power self\<rparr>;
          p2 = p1\<lparr>damage := damage p1 + bonus_damage self\<rparr>
      in (self, p2))"

section \<open>door.py, room.py: doors, rooms and the object store\<close>

text \<open>
  Rooms and doors refer to each other, the player refers to its room, and a room's NPC
  list refers to NPC objects that combat mutates. Objects therefore live in a store and
  are referred to by address. The store allocates in order, so an address is an index;
  \<open>id(obj)\<close> is that index, and \<open>id(None)\<close> is \<open>-1\<close>, the id of no allocated
  object. A door reference may be \<open>None\<close> (\<open>Door.fromJSON\<close> produces such doors).
\<close>

record door =
  door_description :: string
  connected_room :: "addr option"
  opposite_room :: "addr option"

record room =
  room_description :: string
  doors :: "addr list"
  npcs :: "addr list"
  room_id :: int

record store =
  room_objs :: "room list"
  door_objs :: "door list"
  npc_objs :: "npc list"

definition deref :: "'a list \<Rightarrow> addr \<Rightarrow> 'a option" where
  "deref h a = (if a < length h then Some (h ! a) else None)"

fun deref_all :: "'a list \<Rightarrow> addr list \<Rightarrow> error + 'a list" where
  "deref_all h [] = Inr []"
| "deref_all h (a # as) =
     (case deref h a of
        None \<Rightarrow> Inl NoSuchObject
      | Some x \<Rightarrow> (case deref_all h as of Inl e \<Rightarrow> Inl e | Inr xs \<Rightarrow> Inr (x # xs)))"

definition py_id :: "addr option \<Rightarrow> int" where
  "py_id ref = (case ref of None \<Rightarrow> - 1 | Some a \<Rightarrow> int a)"

definition new_npc :: "npc \<Rightarrow> store \<Rightarrow> addr \<times> store" where
  "new_npc n s = (length (npc_objs s), s\<lparr>npc_objs := npc_objs s @ [n]\<rparr>)"

definition new_door :: "door \<Rightarrow> store \<Rightarrow> addr \<times> store" where
  "new_door d s = (length (door_objs s), s\<lparr>door_objs := door_objs s @ [d]\<rparr>)"

text \<open>An assignment to attributes of the room object at an address.\<close>

definition upd_room :: "addr \<Rightarrow> (room \<Rightarrow> room) \<Rightarrow> store \<Rightarrow> store" where
  "upd_room a f s = s\<lparr>room_objs := (room_objs s)[a := f (room_objs s ! a)]\<rparr>"

text \<open>\<open>Room.__init__\<close>: the pydantic constructor, then \<open>self.room_id = id(self)\<close>.\<close>

definition Room_init :: "string \<Rightarrow> store \<Rightarrow> addr \<times> store" where
  "Room_init description s =
     (let a = length (room_objs s)
      in (a, s\<lparr>room_objs := room_objs s @
                [\<lparr>room_description = description, doors = [], npcs = [],
                  room_id = int a\<rparr>]\<rparr>))"

definition add_door :: "addr \<Rightarrow> addr \<Rightarrow> store \<Rightarrow> store" where
  "add_door self d s = upd_room self (\<lambda>r. r\<lparr>doors := doors r @ [d]\<rparr>) s"

definition add_npc :: "addr \<Rightarrow> addr \<Rightarrow> store \<Rightarrow> store" where
  "add_npc self n s = upd_room self (\<lambda>r. r\<lparr>npcs := npcs r @ [n]\<rparr>) s"

text \<open>
  Python's \<open>==\<close>. NPC and Room are pydantic models: equal when of the same class with
  equal fields. Door defines no \<open>__eq__\<close>, so doors are compared by identity, and a list
  is compared element by element.
\<close>

definition npc_eq :: "store \<Rightarrow> addr \<Rightarrow> addr \<Rightarrow> bool" where
  "npc_eq s a b \<longleftrightarrow>
     a = b \<or> (case (deref (npc_objs s) a, deref (npc_objs s) b) of
                (Some x, Some y) \<Rightarrow> x = y
              | _ \<Rightarrow> False)"

definition room_eq :: "store \<Rightarrow> addr \<Rightarrow> addr \<Rightarrow> bool" where
  "room_eq s a b \<longleftrightarrow>
     a = b \<or> (case (deref (room_objs s) a, deref (room_objs s) b) of
                (Some x, Some y) \<Rightarrow>
                  room_description x = room_description y \<and> doors x = doors y
                  \<and> list_all2 (npc_eq s) (npcs x) (npcs y) \<and> room_id x = room_id y
              | _ \<Rightarrow> False)"

text \<open>
  \<open>Player.change_room\<close> assigns the room and then prints \<open>self.current_room.inspect()\<close>,
  which raises \<open>AttributeError\<close> when the new room is \<open>None\<close>.
\<close>

definition change_room :: "player \<Rightarrow> addr option \<Rightarrow> error + player" where
  "change_room self new_room =
     (case new_room of
        None \<Rightarrow> Inl AttributeError
      | Some r \<Rightarrow> Inr (self\<lparr>current_room := r\<rparr>))"

definition Door_interact :: "door \<Rightarrow> store \<Rightarrow> player \<Rightarrow> error + player" where
  "Door_interact self s p =
     (if (case opposite_room self of
            None \<Rightarrow> False
          | Some r \<Rightarrow> room_eq s (current_room p) r)
      then change_room p (connected_room self)
      else change_room p (opposite_room self))"

section \<open>The serialized form\<close>

text \<open>
  What \<open>toJSON\<close> produces. The dictionary of an NPC has a different key set for each
  class, so it is kept as a dictionary; the others have a fixed shape.
\<close>

datatype jval = JInt int | JStr string

type_synonym npc_json = "(string \<times> jval) list"

record door_json =
  dj_description :: string
  connected_room_id :: int
  opposite_room_id :: int

record room_json =
  rj_description :: string
  rj_room_id :: int
  rj_doors :: "door_json list"
  rj_npcs :: "npc_json list"

record player_json =
  pj_name :: string
  pj_current_room :: room_json
  pj_health :: int
  pj_damage :: int

record game_json =
  gj_rooms :: "(int \<times> room_json) list"
  gj_player :: player_json

section \<open>toJSON\<close>

definition Door_toJSON :: "door \<Rightarrow> door_json" where
  "Door_toJSON self =
     \<lparr>dj_description = door_description self,
      connected_room_id = py_id (connected_room self),
      opposite_room_id = py_id (opposite_room self)\<rparr>"

fun NPC_toJSON :: "npc \<Rightarrow> npc_json" where
  "NPC_toJSON (NPC d) = [(''description'', JStr d)]"
| "NPC_toJSON (Enemy e) =
     [(''description'', JStr (enemy_description e)),
      (''health'', JInt (health e)),
      (''damage'', JInt (damage e))]"
| "NPC_toJSON (Wizard w) =
     [(''description'', JStr (wizard_description w)),
      (''bonus_damage'', JInt (bonus_damage w)),
      (''healing_power'', JInt (healing_power w))]"

definition Room_toJSON :: "store \<Rightarrow> room \<Rightarrow> error + room_json" where
  "Room_toJSON s self =
     (case deref_all (door_objs s) (doors self) of
        Inl e \<Rightarrow> Inl e
      | Inr ds \<Rightarrow>
          (case deref_all (npc_objs s) (npcs self) of
             Inl e \<Rightarrow> Inl e
           | Inr ns \<Rightarrow>
               Inr \<lparr>rj_description = room_description self,
                    rj_room_id = room_id self,
                    rj_doors = map Door_toJSON ds,
                    rj_npcs = map NPC_toJSON ns\<rparr>))"

definition Player_toJSON :: "store \<Rightarrow> player \<Rightarrow> error + player_json" where
  "Player_toJSON s self =
     (case deref (room_objs s) (current_room self) of
        None \<Rightarrow> Inl NoSuchObject
      | Some r \<Rightarrow>
          (case Room_toJSON s r of
             Inl e \<Rightarrow> Inl e
           | Inr rj \<Rightarrow>
               Inr \<lparr>pj_name = name self, pj_current_room = rj,
                    pj_health = health self, pj_damage = damage self\<rparr>))"

section \<open>io_utils.py: the game\<close>

text \<open>
  \<open>Game.rooms\<close> is a dictionary from room id to room; a Python dictionary keeps keys
  in insertion order, and an assignment to a present key keeps its place.
  The attributes \<open>initial_room\<close> and \<open>second_room\<close> that \<open>Game.__init__\<close> also sets
  are never read afterwards and are not part of the record.
\<close>

record game =
  rooms :: "(int \<times> addr) list"
  player :: player

fun dict_set :: "('k \<times> 'v) list \<Rightarrow> 'k \<Rightarrow> 'v \<Rightarrow> ('k \<times> 'v) list" where
  "dict_set [] k v = [(k, v)]"
| "dict_set ((k', v') # kvs) k v =
     (if k' = k then (k, v) # kvs else (k', v') # dict_set kvs k v)"

fun rooms_toJSON :: "store \<Rightarrow> (int \<times> addr) list \<Rightarrow> error + (int \<times> room_json) list" where
  "rooms_toJSON s [] = Inr []"
| "rooms_toJSON s ((k, a) # kas) =
     (case deref (room_objs s) a of
        None \<Rightarrow> Inl NoSuchObject
      | Some r \<Rightarrow>
          (case Room_toJSON s r of
             Inl e \<Rightarrow> Inl e
           | Inr rj \<Rightarrow>
               (case rooms_toJSON s kas of
                  Inl e \<Rightarrow> Inl e
                | Inr rest \<Rightarrow> Inr ((k, rj) # rest))))"

definition Game_toJSON :: "store \<Rightarrow> game \<Rightarrow> error + game_json" where
  "Game_toJSON s self =
     (case rooms_toJSON s (rooms self) of
        Inl e \<Rightarrow> Inl e
      | Inr rs \<Rightarrow>
          (case Player_toJSON s (player self) of
             Inl e \<Rightarrow> Inl e
           | Inr pj \<Rightarrow> Inr \<lparr>gj_rooms = rs, gj_player = pj\<rparr>))"

section \<open>fromJSON\<close>

text \<open>
  Decoding allocates objects, and may raise after it has allocated some: every decoder
  returns the store it leaves behind together with its result or exception.
\<close>

text \<open>\<open>Door.fromJSON(json_data, room_dict)\<close>: both rooms are looked up with \<open>dict.get\<close>.\<close>

definition Door_fromJSON :: "door_json \<Rightarrow> (int \<times> addr) list \<Rightarrow> door" where
  "Door_fromJSON json_data room_dict =
     (let connected = map_of room_dict (connected_room_id json_data);
          opposite = map_of room_dict (opposite_room_id json_data)
      in \<lparr>door_description = dj_description json_data,
          connected_room = connected, opposite_room = opposite\<rparr>)"

text \<open>
  \<open>NPC.fromJSON\<close>: \<open>cls(description=json_data["description"])\<close>. A missing key raises
  \<open>KeyError\<close>; pydantic rejects a description that is not a string.
\<close>

definition NPC_fromJSON :: "npc_json \<Rightarrow> error + npc" where
  "NPC_fromJSON json_data =
     (case map_of json_data ''description'' of
        None \<Rightarrow> Inl KeyError
      | Some (JStr d) \<Rightarrow> Inr (NPC d)
      | Some (JInt i) \<Rightarrow> Inl ValidationError)"

text \<open>The list comprehension \<open>[NPC.fromJSON(npc) for npc in json_data["npcs"]]\<close>.\<close>

fun NPCs_fromJSON :: "npc_json list \<Rightarrow> store \<Rightarrow> (error + addr list) \<times> store" where
  "NPCs_fromJSON [] s = (Inr [], s)"
| "NPCs_fromJSON (j # js) s =
     (case NPC_fromJSON j of
        Inl e \<Rightarrow> (Inl e, s)
      | Inr n \<Rightarrow>
          (case new_npc n s of
             (a, s1) \<Rightarrow>
               (case NPCs_fromJSON js s1 of
                  (Inl e, s2) \<Rightarrow> (Inl e, s2)
                | (Inr as, s2) \<Rightarrow> (Inr (a # as), s2))))"

definition Room_fromJSON :: "room_json \<Rightarrow> store \<Rightarrow> (error + addr) \<times> store" where
  "Room_fromJSON json_data s =
     (case Room_init (rj_description json_data) s of
        (a, s1) \<Rightarrow>
          (let s2 = upd_room a (\<lambda>r. r\<lparr>room_id := rj_room_id json_data\<rparr>) s1;
               s3 = upd_room a (\<lambda>r. r\<lparr>doors := []\<rparr>) s2
           in (case NPCs_fromJSON (rj_npcs json_data) s3 of
                 (Inl e, s4) \<Rightarrow> (Inl e, s4)
               | (Inr ns, s4) \<Rightarrow> (Inr a, upd_room a (\<lambda>r. r\<lparr>npcs := ns\<rparr>) s4))))"

definition Player_fromJSON :: "player_json \<Rightarrow> store \<Rightarrow> (error + player) \<times> store" where
  "Player_fromJSON json_data s =
     (case Room_fromJSON (pj_current_room json_data) s of
        (Inl e, s1) \<Rightarrow> (Inl e, s1)
      | (Inr a, s1) \<Rightarrow>
          (Inr \<lparr>health = pj_health json_data, damage = pj_damage json_data,
                name = pj_name json_data, current_room = a\<rparr>, s1))"

text \<open>
  The first loop of \<open>Game.fromJSON\<close>:
  \<open>room = Room.fromJSON(room_data); game.rooms[room.room_id] = room\<close>.
\<close>

fun decode_rooms ::
  "room_json list \<Rightarrow> (int \<times> addr) list \<Rightarrow> store \<Rightarrow> (error + (int \<times> addr) list) \<times> store" where
  "decode_rooms [] tbl s = (Inr tbl, s)"
| "decode_rooms (room_data # rest) tbl s =
     (case Room_fromJSON room_data s of
        (Inl e, s1) \<Rightarrow> (Inl e, s1)
      | (Inr a, s1) \<Rightarrow>
          (case deref (room_objs s1) a of
             None \<Rightarrow> (Inl NoSuchObject, s1)
           | Some r \<Rightarrow> decode_rooms rest (dict_set tbl (room_id r) a) s1))"

text \<open>
  The second loop of \<open>Game.fromJSON\<close> visits every door of every room of the table. Its
  body reads \<open>door.connected_room_id\<close>, an attribute no Door object has, so it raises
  \<open>AttributeError\<close> at the first door it meets.
\<close>

fun relink_doors :: "store \<Rightarrow> addr list \<Rightarrow> error + unit" where
  "relink_doors s [] = Inr ()"
| "relink_doors s (a # as) =
     (case deref (room_objs s) a of
        None \<Rightarrow> Inl NoSuchObject
      | Some r \<Rightarrow>
          (case doors r of
             [] \<Rightarrow> relink_doors s as
           | d # ds \<Rightarrow> Inl AttributeError))"

definition Game_fromJSON :: "game_json \<Rightarrow> store \<Rightarrow> (error + game) \<times> store" where
  "Game_fromJSON json_data s =
     (case decode_rooms (map snd (gj_rooms json_data)) [] s of
        (Inl e, s1) \<Rightarrow> (Inl e, s1)
      | (Inr tbl, s1) \<Rightarrow>
          (case relink_doors s1 (map snd tbl) of
             Inl e \<Rightarrow> (Inl e, s1)
           | Inr u \<Rightarrow>
               (case Player_fromJSON (gj_player json_data) s1 of
                  (Inl e, s2) \<Rightarrow> (Inl e, s2)
                | (Inr p, s2) \<Rightarrow> (Inr \<lparr>rooms = tbl, player = p\<rparr>, s2))))"

section \<open>The world Game.__init__ builds\<close>

definition empty_store :: store where
  "empty_store = \<lparr>room_objs = [], door_objs = [], npc_objs = []\<rparr>"

definition Game_init :: "store \<Rightarrow> game \<times> store" where
  "Game_init s0 =
     (case Room_init ''A dusty room full of old computers.'' s0 of (initial_room, s1) \<Rightarrow>
      case Room_init ''A dark room with dark doors.'' s1 of (second_room, s2) \<Rightarrow>
      let rooms1 = dict_set [] (int initial_room) initial_room;
          rooms2 = dict_set rooms1 (int second_room) second_room;
          p = \<lparr>health = 100, damage = 20, name = ''Matthew'',
               current_room = initial_room\<rparr>
      in
      case new_door \<lparr>door_description = ''A mysterious red door.'',
                     connected_room = Some second_room,
                     opposite_room = Some initial_room\<rparr> s2 of (door1, s3) \<Rightarrow>
      case new_door \<lparr>door_description = ''A black door with a keypad.'',
                     connected_room = Some second_room,
                     opposite_room = Some initial_room\<rparr> s3 of (door2, s4) \<Rightarrow>
      let s5 = add_door initial_room door1 s4;
          s6 = add_door initial_room door2 s5;
          s7 = add_door second_room door1 s6;
          s8 = add_door second_room door2 s7
      in
      case new_npc (NPC ''A suspiciously happy looking orc'') s8 of (npc1, s9) \<Rightarrow>
      case new_npc (Enemy \<lparr>health = 50, damage = 15,
                           enemy_description = ''A fierce goblin''\<rparr>) s9 of (npc2, s10) \<Rightarrow>
      case new_npc (NPC ''The kerstman'') s10 of (npc3, s11) \<Rightarrow>
      case new_npc (Enemy \<lparr>health = 60, damage = 100,
                           enemy_description = ''A dangerous vampire''\<rparr>) s11 of (npc4, s12) \<Rightarrow>
      case new_npc (Wizard \<lparr>wizard_description = ''A wise old wizard'',
                            bonus_damage = 10, healing_power = 30\<rparr>) s12 of (wiz, s13) \<Rightarrow>
      let s14 = add_npc initial_room npc1 s13;
          s15 = add_npc initial_room npc2 s14;
          s16 = add_npc second_room npc3 s15;
          s17 = add_npc second_room npc4 s16;
          s18 = add_npc second_room wiz s17
      in (\<lparr>rooms = rooms2, player = p\<rparr>, s18))"

section \<open>Game.combat\<close>

text \<open>
  One pass of the loop reads a choice with \<open>Scanner.read_int\<close>, which returns an integer
  or, at the end of the input, \<open>None\<close>; the player's attack and the enemy's
  counter-attack each draw one random number.
\<close>

record turn =
  choice :: "int option"
  player_roll :: nat
  enemy_roll :: nat

datatype flow = Continue | Break

text \<open>
  The enemy's \<open>is_alive\<close> and \<open>attack\<close> are methods of \<open>Combat\<close>; an NPC of another class
  has no such attribute.
\<close>

definition get_enemy :: "store \<Rightarrow> addr \<Rightarrow> error + enemy" where
  "get_enemy s e =
     (case deref (npc_objs s) e of
        None \<Rightarrow> Inl NoSuchObject
      | Some (Enemy x) \<Rightarrow> Inr x
      | Some (NPC d) \<Rightarrow> Inl AttributeError
      | Some (Wizard w) \<Rightarrow> Inl AttributeError)"

text \<open>
  \<open>list.remove(x)\<close> removes the first item that is \<open>x\<close> or equals \<open>x\<close>, and raises
  \<open>ValueError\<close> when there is none.
\<close>

fun list_remove :: "store \<Rightarrow> addr list \<Rightarrow> addr \<Rightarrow> error + addr list" where
  "list_remove s [] x = Inl ValueError"
| "list_remove s (y # ys) x =
     (if npc_eq s y x then Inr ys
      else (case list_remove s ys x of Inl e \<Rightarrow> Inl e | Inr zs \<Rightarrow> Inr (y # zs)))"

text \<open>The loop condition \<open>self.player.is_alive() and enemy.is_alive()\<close>.\<close>

definition loop_cond :: "store \<Rightarrow> game \<Rightarrow> addr \<Rightarrow> error + bool" where
  "loop_cond s g e =
     (if is_alive (player g) then
        (case get_enemy s e of Inl err \<Rightarrow> Inl err | Inr en \<Rightarrow> Inr (is_alive en))
      else Inr False)"

text \<open>The loop body.\<close>

definition combat_turn :: "turn \<Rightarrow> addr \<Rightarrow> store \<times> game \<Rightarrow> error + flow \<times> store \<times> game" where
  "combat_turn t e sg =
     (case sg of (s, g) \<Rightarrow>
      if choice t = Some 0 then
        (case get_enemy s e of
           Inl err \<Rightarrow> Inl err
         | Inr en \<Rightarrow>
             (case attack (player g) en (player_roll t) of
                Inl err \<Rightarrow> Inl err
              | Inr en1 \<Rightarrow>
                  (let s1 = s\<lparr>npc_objs := (npc_objs s)[e := Enemy en1]\<rparr>
                   in if is_alive en1 then
                        (case attack en1 (player g) (enemy_roll t) of
                           Inl err \<Rightarrow> Inl err
                         | Inr p1 \<Rightarrow> Inr (Continue, s1, g\<lparr>player := p1\<rparr>))
                      else
                        (case deref (room_objs s1) (current_room (player g)) of
                           None \<Rightarrow> Inl NoSuchObject
                         | Some r \<Rightarrow>
                             (case list_remove s1 (npcs r) e of
                                Inl err \<Rightarrow> Inl err
                              | Inr ns \<Rightarrow>
                                  Inr (Continue,
                                       upd_room (current_room (player g))
                                         (\<lambda>r. r\<lparr>npcs := ns\<rparr>) s1,
                                       g))))))
      else if choice t = Some 1 then Inr (Break, s, g)
      else Inr (Continue, s, g))"

text \<open>
  The loop, on the turns the input supplies. \<open>None\<close> is a loop that has used all of
  them and is still running.
\<close>

fun Game_combat :: "turn list \<Rightarrow> addr \<Rightarrow> store \<times> game \<Rightarrow> (error + store \<times> game) option" where
  "Game_combat [] e (s, g) =
     (case loop_cond s g e of
        Inl err \<Rightarrow> Some (Inl err)
      | Inr False \<Rightarrow> Some (Inr (s, g))
      | Inr True \<Rightarrow> None)"
| "Game_combat (t # ts) e (s, g) =
     (case loop_cond s g e of
        Inl err \<Rightarrow> Some (Inl err)
      | Inr False \<Rightarrow> Some (Inr (s, g))
      | Inr True \<Rightarrow>
          (case combat_turn t e (s, g) of
             Inl err \<Rightarrow> Some (Inl err)
           | Inr (Break, sg') \<Rightarrow> Some (Inr sg')
           | Inr (Continue, sg') \<Rightarrow> Game_combat ts e sg'))"

section \<open>Notions used to state the properties\<close>

text \<open>
  The \<open>description\<close> attribute, which every NPC class inherits from \<open>NPC\<close>.
\<close>

fun description :: "npc \<Rightarrow> string" where
  "description (NPC d) = d"
| "description (Enemy e) = enemy_description e"
| "description (Wizard w) = wizard_description w"

text \<open>
  A later store extends an earlier one when every object of the earlier one is in it,
  at the same address and with the same fields (doors are never allocated by a decoder).
\<close>

definition extends :: "store \<Rightarrow> store \<Rightarrow> bool" where
  "extends s s' \<longleftrightarrow>
     prefix (room_objs s) (room_objs s') \<and> door_objs s' = door_objs s
     \<and> prefix (npc_objs s) (npc_objs s')"

text \<open>
  The NPC object at address \<open>a\<close> is a plain \<open>NPC\<close> whose description is the
  \<open>"description"\<close> entry of the dictionary \<open>j\<close>.
\<close>

definition plain_copy :: "store \<Rightarrow> npc_json \<Rightarrow> addr \<Rightarrow> bool" where
  "plain_copy s j a \<longleftrightarrow>
     (case map_of j ''description'' of
        Some (JStr d) \<Rightarrow> deref (npc_objs s) a = Some (NPC d)
      | _ \<Rightarrow> False)"

text \<open>
  For each entry of the room table, the endpoint ids \<open>(id(connected_room),
  id(opposite_room))\<close> of the doors of that room, in order.
\<close>

definition door_ids :: "store \<Rightarrow> game \<Rightarrow> (int \<times> (int \<times> int) list option) list" where
  "door_ids s g =
     map (\<lambda>(k, a). (k, (case deref (room_objs s) a of
                          None \<Rightarrow> None
                        | Some r \<Rightarrow>
                            (case deref_all (door_objs s) (doors r) of
                               Inl e \<Rightarrow> None
                             | Inr ds \<Rightarrow>
                                 Some (map (\<lambda>d. (py_id (connected_room d),
                                                 py_id (opposite_room d))) ds)))))
         (rooms g)"

section \<open>Example worlds\<close>

text \<open>The world that \<open>Game()\<close> builds in an empty store.\<close>

definition initial_store :: store where
  "initial_store = snd (Game_init empty_store)"

definition initial_game :: game where
  "initial_game = fst (Game_init empty_store)"

text \<open>
  A snapshot with one room whose door names room id 7, which is not in the room table.
\<close>

definition dangling_snapshot :: game_json where
  "dangling_snapshot =
     (let cell = \<lparr>rj_description = ''Cell'', rj_room_id = 0,
                  rj_doors = [\<lparr>dj_description = ''Gate'', connected_room_id = 7,
                               opposite_room_id = 0\<rparr>],
                  rj_npcs = []\<rparr>
      in \<lparr>gj_rooms = [(0, cell)],
          gj_player = \<lparr>pj_name = ''Hero'', pj_current_room = cell,
                        pj_health = 100, pj_damage = 20\<rparr>\<rparr>)"



text \<open>
  Two room objects with equal fields, as \<open>Room.fromJSON\<close> builds them from one
  dictionary (\<open>Game.fromJSON\<close> decodes the player's room apart from the room table),
  and a door between them that both list.
\<close>

definition twin_store :: store where
  "twin_store =
     \<lparr>room_objs = [\<lparr>room_description = ''Cell'', doors = [0], npcs = [], room_id = 0\<rparr>,
                   \<lparr>room_description = ''Cell'', doors = [0], npcs = [], room_id = 0\<rparr>],
      door_objs = [\<lparr>door_description = ''Gate'', connected_room = Some 0,
                    opposite_room = Some 1\<rparr>],
      npc_objs = []\<rparr>"


section \<open>Properties of one attack\<close>

lemma bit_length_le: "n < 2 ^ m \<Longrightarrow> bit_length n \<le> m"
proof (induction m arbitrary: n)
  case 0
  then show ?case by (simp add: bit_length.simps)
next
  case (Suc m)
  show ?case
  proof (cases "n = 0")
    case True
    then show ?thesis by (simp add: bit_length.simps)
  next
    case False
    from Suc.prems have "n div 2 < 2 ^ m" by simp
    then have "bit_length (n div 2) \<le> m" by (rule Suc.IH)
    with False show ?thesis by (subst bit_length.simps) simp
  qed
qed

lemma round_to_53_between:
  assumes b: "bit_length n \<le> 53 + s" and dv: "2 ^ s dvd lo" and lo: "lo \<le> n"
    and hi: "n + 2 ^ (s - 1) < hi" and s: "0 < s"
  shows "lo \<le> round_to_53 n \<and> round_to_53 n < hi"
proof (cases "bit_length n \<le> 53")
  case True
  then have "round_to_53 n = n" by (simp add: round_to_53_def)
  with lo hi show ?thesis by simp
next
  case False
  define sh where "sh = bit_length n - 53"
  define q where "q = n div 2 ^ sh"
  define r where "r = n mod 2 ^ sh"
  have sh: "0 < sh" "sh \<le> s" using False b by (simp_all add: sh_def)
  have n: "n = q * 2 ^ sh + r"
    unfolding q_def r_def by (rule div_mult_mod_eq [symmetric])
  have r: "r < 2 ^ sh" by (simp add: r_def)
  have two: "(2::nat) ^ sh = 2 * 2 ^ (sh - 1)"
    using sh(1) by (cases sh) simp_all
  have rd: "round_to_53 n
      = (if 2 ^ (sh - 1) < r \<or> (r = 2 ^ (sh - 1) \<and> odd q) then q + 1 else q) * 2 ^ sh"
    using False by (simp add: round_to_53_def Let_def sh_def q_def r_def)
  have "2 ^ sh dvd lo"
    using dv sh(2) by (meson dvd_trans le_imp_power_dvd)
  then obtain j where j: "lo = j * 2 ^ sh" by (auto simp add: dvd_def mult.commute)
  have "j \<le> q"
  proof -
    from lo j have "j * 2 ^ sh \<le> n" by simp
    then have "j * 2 ^ sh div 2 ^ sh \<le> n div 2 ^ sh" by (rule div_le_mono)
    then show ?thesis by (simp add: q_def)
  qed
  then have low: "lo \<le> q * 2 ^ sh" by (simp add: j)
  have mono: "(2::nat) ^ (sh - 1) \<le> 2 ^ (s - 1)"
    using sh(2) by (simp add: diff_le_mono)
  show ?thesis
  proof (cases "2 ^ (sh - 1) < r \<or> (r = 2 ^ (sh - 1) \<and> odd q)")
    case True
    then have v: "round_to_53 n = q * 2 ^ sh + 2 ^ sh" by (simp add: rd)
    from True have "2 ^ (sh - 1) \<le> r" by auto
    then have "q * 2 ^ sh + 2 ^ sh \<le> n + 2 ^ (sh - 1)"
      unfolding n using two by simp
    with mono hi low show ?thesis unfolding v by linarith
  next
    case False
    then have v: "round_to_53 n = q * 2 ^ sh" by (simp add: rd)
    have "q * 2 ^ sh \<le> n" by (simp add: n)
    with hi low show ?thesis unfolding v by linarith
  qed
qed

lemma int_mul_08_exact:
  assumes "0 \<le> d" and "d < 3 * 2 ^ 49"
  shows "int_mul_08 d = Inr ((4 * d) div 5)"
proof -
  define m where "m = nat d"
  define k where "k = (4 * m) div 5"
  have m': "m < 1688849860263936" using assms by (simp add: m_def nat_less_iff)
  have d: "d = int m" using assms(1) by (simp add: m_def)
  have "m < 2 ^ 51" using m' by simp
  then have "bit_length m \<le> 51" by (rule bit_length_le)
  then have rm: "round_to_53 m = m" by (simp add: round_to_53_def)
  have "m < 2 ^ 1024"
  proof -
    have "(2::nat) ^ 51 \<le> 2 ^ 1024" by (rule power_increasing) simp_all
    with \<open>m < 2 ^ 51\<close> show ?thesis by linarith
  qed
  then have f: "float_of_int (int m) = Inr (int m)"
    by (auto simp add: float_of_int_def rm Let_def sgn_if)
  have "4 * m = 5 * k + (4 * m) mod 5" by (simp add: k_def)
  moreover have "(4 * m) mod 5 < 5" by simp
  ultimately have k1: "5 * k \<le> 4 * m" and k2: "4 * m < 5 * k + 5" by linarith+
  let ?n = "m * 3602879701896397"
  have "?n < 2 ^ 103" using m' by simp
  then have bl: "bit_length ?n \<le> 53 + 50" using bit_length_le [of ?n 103] by simp
  have dv: "2 ^ 50 dvd k * (2::nat) ^ 52"
    by (simp add: le_imp_power_dvd)
  have lo: "k * 2 ^ 52 \<le> ?n" using k1 by simp
  have hi: "?n + 2 ^ (50 - 1) < (k + 1) * 2 ^ 52" using k2 m' by simp
  from round_to_53_between [OF bl dv lo hi]
  have "k * 2 ^ 52 \<le> round_to_53 ?n" and "round_to_53 ?n < (k + 1) * 2 ^ 52" by simp_all
  then have r: "round_to_53 ?n div 2 ^ 52 = k"
    by (intro div_nat_eqI) (simp_all add: mult.commute)
  have "int_mul_08 (int m) = Inr (sgn (int m) * int (round_to_53 ?n div 2 ^ 52))"
    by (simp add: int_mul_08_def f)
  also have "\<dots> = Inr (sgn (int m) * int k)" by (simp only: r)
  also have "sgn (int m) * int k = int k"
    using k1 by (cases "m = 0") simp_all
  also have "int k = (4 * int m) div 5" by (simp add: k_def zdiv_int)
  finally show ?thesis by (simp only: d)
qed

text \<open>The bound is the largest possible: at \<open>3 * 2^49\<close> the double product rounds up.\<close>

lemma int_mul_08_at_bound:
  "int_mul_08 (3 * 2 ^ 49) = Inr 1351079888211149
   \<and> (4 * (3 * 2 ^ 49)) div 5 = (1351079888211148::int)"
  by (simp add: int_mul_08_def float_of_int_def round_to_53_def bit_length.simps Let_def)


lemma randint_in_range:
  assumes "a \<le> b"
  shows "\<exists>d. randint a b r = Inr d \<and> a \<le> d \<and> d \<le> b"
proof -
  have "0 < nat (b - a + 1)" using assms by simp
  then have "r mod nat (b - a + 1) < nat (b - a + 1)" by (rule mod_less_divisor)
  then have "int (r mod nat (b - a + 1)) \<le> b - a" using assms by linarith
  then show ?thesis using assms by (simp add: randint_def)
qed


lemma attack_alive:
  assumes "is_alive self" and "0 \<le> damage self" and "damage self < 3 * 2 ^ 49"
  shows "\<exists>d. attack self target r = Inr (take_damage target d)
             \<and> (4 * damage self) div 5 \<le> d \<and> d \<le> damage self"
proof -
  have lo: "int_mul_08 (damage self) = Inr ((4 * damage self) div 5)"
    by (rule int_mul_08_exact [OF assms(2,3)])
  have "(4 * damage self) div 5 \<le> damage self" using assms(2) by linarith
  from randint_in_range [OF this, of r]
  obtain d where "randint ((4 * damage self) div 5) (damage self) r = Inr d"
    and "(4 * damage self) div 5 \<le> d" and "d \<le> damage self"
    by blast
  moreover have "attack self target r =
      (case randint ((4 * damage self) div 5) (damage self) r of
         Inl e \<Rightarrow> Inl e | Inr dd \<Rightarrow> Inr (take_damage target dd))"
    using assms(1) by (simp add: attack_def lo)
  ultimately show ?thesis by auto
qed




text \<open>
  C8. A combatant that is not alive (\<open>health \<le> 0\<close>) deals no damage: \<open>attack\<close> itself
  tests \<open>is_alive\<close> and leaves the target as it was, for every target and every state
  of the generator.
\<close>

theorem attack_dead_no_effect:
  assumes "health self \<le> 0"
  shows "attack self target r = Inr target"
  using assms by (simp add: attack_def is_alive_def)

theorem attack_dead_no_effect_witness:
  "health \<lparr>health = 0, damage = 15\<rparr> \<le> 0
   \<and> attack \<lparr>health = 0, damage = 15\<rparr> \<lparr>health = 100, damage = 20\<rparr> 7
       = Inr \<lparr>health = 100, damage = 20\<rparr>"
proof -
  have h: "health \<lparr>health = 0, damage = 15\<rparr> \<le> 0" by simp
  from h attack_dead_no_effect [OF h, of "\<lparr>health = 100, damage = 20\<rparr>" 7]
  show ?thesis by simp
qed

section \<open>The wizard's buff\<close>

text \<open>
  C7. \<open>give_bonus\<close> adds \<open>healing_power\<close> to the player's health and \<open>bonus_damage\<close> to
  the player's damage and changes nothing else, the wizard included; applied twice, it
  adds both increments twice. Wizard(bonus_damage=10, healing_power=30) turns
  Player(health=100, damage=20) into health 130, damage 30.
\<close>

theorem give_bonus_effect:
  "give_bonus w p
     = (w, p\<lparr>health := health p + healing_power w, damage := damage p + bonus_damage w\<rparr>)
   \<and> give_bonus w (snd (give_bonus w p))
     = (w, p\<lparr>health := health p + 2 * healing_power w,
             damage := damage p + 2 * bonus_damage w\<rparr>)
   \<and> give_bonus \<lparr>wizard_description = d, bonus_damage = 10, healing_power = 30\<rparr>
        \<lparr>health = 100, damage = 20, name = n, current_room = c\<rparr>
     = (\<lparr>wizard_description = d, bonus_damage = 10, healing_power = 30\<rparr>,
        \<lparr>health = 130, damage = 30, name = n, current_room = c\<rparr>)"
  by (simp add: give_bonus_def Let_def)

section \<open>Constructing an Enemy\<close>

text \<open>
  C5, as the code has it. The constructor of \<open>Enemy\<close> validates \<open>health\<close> only: it fails
  with a validation error exactly when \<open>health \<le> 0\<close>, and for \<open>health > 0\<close> it succeeds
  with the given fields whatever \<open>damage\<close> is.
\<close>

theorem Enemy_init_validates_health:
  "(h \<le> 0 \<longrightarrow> Enemy_init descr h d = Inl ValidationError)
   \<and> (0 < h \<longrightarrow> Enemy_init descr h d
                  = Inr \<lparr>health = h, damage = d, enemy_description = descr\<rparr>)"
  by (simp add: Enemy_init_def validate_health_def)

theorem Enemy_init_validates_health_witness:
  "Enemy_init ''Goblin'' 0 15 = Inl ValidationError
   \<and> Enemy_init ''Goblin'' 50 15
       = Inr \<lparr>health = 50, damage = 15, enemy_description = ''Goblin''\<rparr>"
  using Enemy_init_validates_health [of 0 "''Goblin''" 15]
        Enemy_init_validates_health [of 50 "''Goblin''" 15]
  by simp

text \<open>
  C5, as stated, fails: an Enemy with \<open>damage = 0\<close> (so \<open>damage < 1\<close>) is constructed
  without error.
\<close>

theorem Enemy_init_damage_counterexample:
  "Enemy_init ''Goblin'' 50 0
     = Inr \<lparr>health = 50, damage = 0, enemy_description = ''Goblin''\<rparr>"
  by (simp add: Enemy_init_def validate_health_def)

section \<open>The initial world\<close>

lemma Game_init_empty_store:
  "Game_init empty_store =
    (\<lparr>rooms = [(0, 0), (1, 1)],
      player = \<lparr>health = 100, damage = 20, name = ''Matthew'', current_room = 0\<rparr>\<rparr>,
     \<lparr>room_objs =
        [\<lparr>room_description = ''A dusty room full of old computers.'',
          doors = [0, 1], npcs = [0, 1], room_id = 0\<rparr>,
         \<lparr>room_description = ''A dark room with dark doors.'',
          doors = [0, 1], npcs = [2, 3, 4], room_id = 1\<rparr>],
      door_objs =
        [\<lparr>door_description = ''A mysterious red door.'',
          connected_room = Some 1, opposite_room = Some 0\<rparr>,
         \<lparr>door_description = ''A black door with a keypad.'',
          connected_room = Some 1, opposite_room = Some 0\<rparr>],
      npc_objs =
        [NPC ''A suspiciously happy looking orc'',
         Enemy \<lparr>health = 50, damage = 15, enemy_description = ''A fierce goblin''\<rparr>,
         NPC ''The kerstman'',
         Enemy \<lparr>health = 60, damage = 100, enemy_description = ''A dangerous vampire''\<rparr>,
         Wizard \<lparr>wizard_description = ''A wise old wizard'', bonus_damage = 10,
                 healing_power = 30\<rparr>]\<rparr>)"
  unfolding Game_init_def Let_def
  by (simp add: Room_init_def new_door_def new_npc_def add_door_def
                add_npc_def upd_room_def empty_store_def cong: prod.case_cong_weak)

lemmas initial_world = initial_store_def initial_game_def Game_init_empty_store

section \<open>Going through a door\<close>

lemma room_eq_refl: "room_eq s a a"
  by (simp add: room_eq_def)

text \<open>
  C4, as the code has it. For every door with its two rooms and every player: if the
  player's current room equals (Python \<open>==\<close>) the door's \<open>opposite_room\<close>,
  interacting moves the player to \<open>connected_room\<close>, otherwise to \<open>opposite_room\<close>.
  Hence a player in \<open>opposite_room\<close> who goes through the door is in
  \<open>connected_room\<close>, and going through the same door again returns the player to
  \<open>opposite_room\<close>, unless the two rooms are different objects that compare equal:
  then the second pass leaves the player in \<open>connected_room\<close>.
\<close>

theorem Door_interact_inverse:
  assumes "connected_room d = Some c" and "opposite_room d = Some opp"
  shows "Door_interact d s p
           = Inr (p\<lparr>current_room := (if room_eq s (current_room p) opp then c else opp)\<rparr>)
       \<and> (current_room p = opp \<longrightarrow>
            (\<exists>p1 p2. Door_interact d s p = Inr p1 \<and> current_room p1 = c
                   \<and> Door_interact d s p1 = Inr p2
                   \<and> current_room p2 = (if c \<noteq> opp \<and> room_eq s c opp then c else opp)))"
proof -
  have a: "Door_interact d s p
           = Inr (p\<lparr>current_room := (if room_eq s (current_room p) opp then c else opp)\<rparr>)"
    for p
    using assms by (simp add: Door_interact_def change_room_def)
  have b: "\<exists>p1 p2. Door_interact d s p = Inr p1 \<and> current_room p1 = c
                   \<and> Door_interact d s p1 = Inr p2
                   \<and> current_room p2 = (if c \<noteq> opp \<and> room_eq s c opp then c else opp)"
    if cur: "current_room p = opp"
  proof -
    define p1 where "p1 = p\<lparr>current_room := c\<rparr>"
    define p2 where "p2 = p1\<lparr>current_room := (if room_eq s c opp then c else opp)\<rparr>"
    have s1: "Door_interact d s p = Inr p1"
      using cur by (simp add: a p1_def room_eq_refl)
    have c1: "current_room p1 = c" by (simp add: p1_def)
    have s2: "Door_interact d s p1 = Inr p2" by (simp add: a p2_def c1)
    have e: "current_room p2 = (if c \<noteq> opp \<and> room_eq s c opp then c else opp)"
      by (auto simp add: p2_def)
    from s1 c1 s2 e show ?thesis by blast
  qed
  from a b show ?thesis by blast
qed

theorem Door_interact_inverse_witness:
  "connected_room \<lparr>door_description = ''A mysterious red door.'',
                   connected_room = Some 1, opposite_room = Some 0\<rparr> = Some 1
   \<and> opposite_room \<lparr>door_description = ''A mysterious red door.'',
                   connected_room = Some 1, opposite_room = Some 0\<rparr> = Some 0
   \<and> current_room (player initial_game) = 0
   \<and> (\<exists>p1 p2. Door_interact \<lparr>door_description = ''A mysterious red door.'',
                   connected_room = Some 1, opposite_room = Some 0\<rparr>
                  initial_store (player initial_game) = Inr p1
        \<and> current_room p1 = 1
        \<and> Door_interact \<lparr>door_description = ''A mysterious red door.'',
                   connected_room = Some 1, opposite_room = Some 0\<rparr>
                  initial_store p1 = Inr p2
        \<and> current_room p2 = 0)"
proof -
  let ?d = "\<lparr>door_description = ''A mysterious red door.'',
                   connected_room = Some 1, opposite_room = Some 0\<rparr>"
  have c: "connected_room ?d = Some 1" and opp: "opposite_room ?d = Some 0" by simp_all
  have cur: "current_room (player initial_game) = 0" by (simp add: initial_world)
  have ne: "\<not> room_eq initial_store 1 0"
    by (simp add: initial_world room_eq_def deref_def)
  from Door_interact_inverse [OF c opp, of initial_store "player initial_game"] cur
  obtain p1 p2 where p1: "Door_interact ?d initial_store (player initial_game) = Inr p1"
    and c1: "current_room p1 = 1"
    and p2: "Door_interact ?d initial_store p1 = Inr p2"
    and c2: "current_room p2
               = (if (1::addr) \<noteq> 0 \<and> room_eq initial_store 1 0 then 1 else 0)"
    by blast
  from c2 ne have "current_room p2 = 0" by simp
  with c opp cur p1 c1 p2 show ?thesis by blast
qed

text \<open>
  C4, as stated, fails. The door of the two equal rooms has room 0 as
  \<open>connected_room\<close> and room 1 as \<open>opposite_room\<close>. The player goes from room 1
  (\<open>opposite_room\<close>) to room 0, and the second pass through the same door leaves the
  player in room 0, since room 0 compares equal to room 1.
\<close>

theorem Door_interact_inverse_counterexample:
  "Door_interact \<lparr>door_description = ''Gate'', connected_room = Some 0,
                   opposite_room = Some 1\<rparr> twin_store
       \<lparr>health = 100, damage = 20, name = ''Hero'', current_room = 1\<rparr>
     = Inr \<lparr>health = 100, damage = 20, name = ''Hero'', current_room = 0\<rparr>
   \<and> Door_interact \<lparr>door_description = ''Gate'', connected_room = Some 0,
                     opposite_room = Some 1\<rparr> twin_store
         \<lparr>health = 100, damage = 20, name = ''Hero'', current_room = 0\<rparr>
       = Inr \<lparr>health = 100, damage = 20, name = ''Hero'', current_room = 0\<rparr>"
  by (simp add: Door_interact_def change_room_def room_eq_def deref_def twin_store_def)

section \<open>Decoding only allocates\<close>

lemma extends_refl: "extends s s"
  by (simp add: extends_def)

lemma extends_trans: "extends s t \<Longrightarrow> extends t u \<Longrightarrow> extends s u"
  by (auto simp add: extends_def)

lemma deref_prefix: "deref h a = Some x \<Longrightarrow> prefix h h' \<Longrightarrow> deref h' a = Some x"
  by (auto simp add: deref_def prefix_def nth_append split: if_splits)

lemma extends_new_npc: "new_npc n s = (a, s') \<Longrightarrow> extends s s'"
  by (auto simp add: new_npc_def extends_def)

lemma deref_new_npc: "new_npc n s = (a, s') \<Longrightarrow> deref (npc_objs s') a = Some n"
  by (auto simp add: new_npc_def deref_def)

lemma extends_Room_init: "Room_init d s = (a, s') \<Longrightarrow> extends s s'"
  by (auto simp add: Room_init_def extends_def Let_def)

lemma extends_upd_room:
  "extends s0 s \<Longrightarrow> length (room_objs s0) \<le> a \<Longrightarrow> extends s0 (upd_room a f s)"
  by (auto simp add: extends_def upd_room_def prefix_def list_update_append)

lemma plain_copy_extends: "plain_copy s j a \<Longrightarrow> extends s s' \<Longrightarrow> plain_copy s' j a"
  by (auto simp add: plain_copy_def extends_def dest: deref_prefix split: option.splits jval.splits)

lemma NPC_fromJSON_Inr:
  "NPC_fromJSON j = Inr n \<Longrightarrow> \<exists>d. map_of j ''description'' = Some (JStr d) \<and> n = NPC d"
  by (auto simp add: NPC_fromJSON_def split: option.splits jval.splits)

lemma NPCs_fromJSON_extends: "NPCs_fromJSON js s = (res, s') \<Longrightarrow> extends s s'"
proof (induction js arbitrary: s res s')
  case Nil
  then show ?case by (simp add: extends_refl)
next
  case (Cons j js)
  show ?case
  proof (cases "NPC_fromJSON j")
    case (Inl e)
    with Cons.prems show ?thesis by (simp add: extends_refl)
  next
    case (Inr n)
    obtain a s1 where n1: "new_npc n s = (a, s1)" by (cases "new_npc n s")
    obtain res2 s2 where r2: "NPCs_fromJSON js s1 = (res2, s2)" by (cases "NPCs_fromJSON js s1")
    from Cons.prems Inr n1 r2 have "s' = s2" by (cases res2) simp_all
    moreover have "extends s s1" using n1 by (rule extends_new_npc)
    moreover have "extends s1 s2" using r2 by (rule Cons.IH)
    ultimately show ?thesis by (blast intro: extends_trans)
  qed
qed

lemma NPCs_fromJSON_plain:
  "NPCs_fromJSON js s = (Inr as, s') \<Longrightarrow> list_all2 (plain_copy s') js as"
proof (induction js arbitrary: s as s')
  case Nil
  then show ?case by simp
next
  case (Cons j js)
  show ?case
  proof (cases "NPC_fromJSON j")
    case (Inl e)
    with Cons.prems show ?thesis by simp
  next
    case (Inr n)
    obtain a s1 where n1: "new_npc n s = (a, s1)" by (cases "new_npc n s")
    obtain res2 s2 where r2: "NPCs_fromJSON js s1 = (res2, s2)" by (cases "NPCs_fromJSON js s1")
    from Cons.prems Inr n1 r2 obtain as2 where res2: "res2 = Inr as2" and as: "as = a # as2"
      and s': "s' = s2"
      by (cases res2) auto
    from NPC_fromJSON_Inr [OF Inr] obtain d where d: "map_of j ''description'' = Some (JStr d)"
      and n: "n = NPC d" by blast
    have "plain_copy s1 j a" using deref_new_npc [OF n1] d n by (simp add: plain_copy_def)
    moreover have "extends s1 s2" using r2 by (rule NPCs_fromJSON_extends)
    ultimately have "plain_copy s2 j a" by (rule plain_copy_extends)
    moreover have "list_all2 (plain_copy s2) js as2" using r2 res2 Cons.IH by blast
    ultimately show ?thesis using as s' by simp
  qed
qed

lemma NPCs_fromJSON_rooms:
  "NPCs_fromJSON js s = (res, s') \<Longrightarrow> room_objs s' = room_objs s"
proof (induction js arbitrary: s res s')
  case Nil
  then show ?case by simp
next
  case (Cons j js)
  show ?case
  proof (cases "NPC_fromJSON j")
    case (Inl e)
    with Cons.prems show ?thesis by simp
  next
    case (Inr n)
    obtain a s1 where n1: "new_npc n s = (a, s1)" by (cases "new_npc n s")
    obtain res2 s2 where r2: "NPCs_fromJSON js s1 = (res2, s2)" by (cases "NPCs_fromJSON js s1")
    from Cons.prems Inr n1 r2 have "s' = s2" by (cases res2) simp_all
    moreover have "room_objs s1 = room_objs s" using n1 by (auto simp add: new_npc_def)
    moreover have "room_objs s2 = room_objs s1" using r2 by (rule Cons.IH)
    ultimately show ?thesis by simp
  qed
qed

lemma NPC_fromJSON_toJSON: "NPC_fromJSON (NPC_toJSON n) = Inr (NPC (description n))"
  by (cases n) (simp_all add: NPC_fromJSON_def)

lemma NPCs_fromJSON_toJSON:
  "NPCs_fromJSON (map NPC_toJSON ns) s
     = (Inr [length (npc_objs s) ..< length (npc_objs s) + length ns],
        s\<lparr>npc_objs := npc_objs s @ map (\<lambda>n. NPC (description n)) ns\<rparr>)"
proof (induction ns arbitrary: s)
  case Nil
  then show ?case by simp
next
  case (Cons n ns)
  have u: "[length (npc_objs s) ..< length (npc_objs s) + length (n # ns)]
           = length (npc_objs s) # [Suc (length (npc_objs s)) ..< Suc (length (npc_objs s)) + length ns]"
    by (simp add: upt_rec)
  show ?case
    unfolding u by (simp add: NPC_fromJSON_toJSON new_npc_def Cons.IH)
qed

lemma Room_fromJSON_extends:
  assumes "Room_fromJSON j s = (res, s')"
  shows "extends s s'"
proof -
  obtain a s1 where i: "Room_init (rj_description j) s = (a, s1)"
    by (cases "Room_init (rj_description j) s")
  define s3 where "s3 = upd_room a (\<lambda>r. r\<lparr>doors := []\<rparr>)
                          (upd_room a (\<lambda>r. r\<lparr>room_id := rj_room_id j\<rparr>) s1)"
  obtain res4 s4 where n: "NPCs_fromJSON (rj_npcs j) s3 = (res4, s4)"
    by (cases "NPCs_fromJSON (rj_npcs j) s3")
  have a: "a = length (room_objs s)" using i by (auto simp add: Room_init_def Let_def)
  have e1: "extends s s1" using i by (rule extends_Room_init)
  have e3: "extends s s3" unfolding s3_def using e1 a by (simp add: extends_upd_room)
  have e4: "extends s s4" using e3 NPCs_fromJSON_extends [OF n] by (rule extends_trans)
  have "s' = s4 \<or> s' = upd_room a (\<lambda>r. r\<lparr>npcs := projr res4\<rparr>) s4"
    using assms i n by (cases res4) (simp_all add: Room_fromJSON_def Let_def s3_def)
  then show ?thesis using e4 a by (auto simp add: extends_upd_room)
qed

lemma npc_objs_upd_room: "npc_objs (upd_room a f s) = npc_objs s"
  by (simp add: upd_room_def)

lemma plain_copy_upd_room: "plain_copy (upd_room a f s) = plain_copy s"
  unfolding plain_copy_def npc_objs_upd_room ..

lemma Room_fromJSON_result:
  assumes "Room_fromJSON j s = (Inr a, s')"
  shows "a = length (room_objs s) \<and>
         (\<exists>as. deref (room_objs s') a
                 = Some \<lparr>room_description = rj_description j, doors = [], npcs = as,
                         room_id = rj_room_id j\<rparr>
               \<and> list_all2 (plain_copy s') (rj_npcs j) as)"
proof -
  define a0 where "a0 = length (room_objs s)"
  define s1 where "s1 = s\<lparr>room_objs := room_objs s @
                [\<lparr>room_description = rj_description j, doors = [], npcs = [],
                  room_id = int a0\<rparr>]\<rparr>"
  have i: "Room_init (rj_description j) s = (a0, s1)"
    by (simp add: Room_init_def Let_def a0_def s1_def)
  define s3 where "s3 = upd_room a0 (\<lambda>r. r\<lparr>doors := []\<rparr>)
                          (upd_room a0 (\<lambda>r. r\<lparr>room_id := rj_room_id j\<rparr>) s1)"
  have r3: "room_objs s3 = room_objs s @
                [\<lparr>room_description = rj_description j, doors = [], npcs = [],
                  room_id = rj_room_id j\<rparr>]"
    by (simp add: s3_def s1_def upd_room_def a0_def)
  obtain res4 s4 where n: "NPCs_fromJSON (rj_npcs j) s3 = (res4, s4)"
    by (cases "NPCs_fromJSON (rj_npcs j) s3")
  from assms i n obtain as where res4: "res4 = Inr as" and a: "a = a0"
    and s': "s' = upd_room a0 (\<lambda>r. r\<lparr>npcs := as\<rparr>) s4"
    by (cases res4) (auto simp add: Room_fromJSON_def Let_def s3_def)
  have r4: "room_objs s4 = room_objs s3" using n by (rule NPCs_fromJSON_rooms)
  have "deref (room_objs s') a0
          = Some \<lparr>room_description = rj_description j, doors = [], npcs = as,
                  room_id = rj_room_id j\<rparr>"
    by (simp add: s' upd_room_def r4 r3 deref_def a0_def)
  moreover have "list_all2 (plain_copy s') (rj_npcs j) as"
    using NPCs_fromJSON_plain [of "rj_npcs j" s3 as s4] n res4
    by (simp add: s' plain_copy_upd_room)
  ultimately show ?thesis using a a0_def by blast
qed

lemma deref_all_length: "deref_all h as = Inr xs \<Longrightarrow> length xs = length as"
  by (induction as arbitrary: xs) (auto split: option.splits sum.splits)

lemma Room_fromJSON_toJSON:
  assumes "Room_toJSON s0 r0 = Inr j"
  shows "\<exists>ns. deref_all (npc_objs s0) (npcs r0) = Inr ns \<and>
           Room_fromJSON j s
             = (Inr (length (room_objs s)),
                s\<lparr>room_objs := room_objs s @
                     [\<lparr>room_description = room_description r0, doors = [],
                       npcs = [length (npc_objs s) ..< length (npc_objs s) + length ns],
                       room_id = room_id r0\<rparr>],
                  npc_objs := npc_objs s @ map (\<lambda>n. NPC (description n)) ns\<rparr>)"
proof -
  from assms obtain ds ns where ds: "deref_all (door_objs s0) (doors r0) = Inr ds"
    and ns: "deref_all (npc_objs s0) (npcs r0) = Inr ns"
    and j: "j = \<lparr>rj_description = room_description r0, rj_room_id = room_id r0,
                 rj_doors = map Door_toJSON ds, rj_npcs = map NPC_toJSON ns\<rparr>"
    by (auto simp add: Room_toJSON_def split: sum.splits)
  have "Room_fromJSON j s
             = (Inr (length (room_objs s)),
                s\<lparr>room_objs := room_objs s @
                     [\<lparr>room_description = room_description r0, doors = [],
                       npcs = [length (npc_objs s) ..< length (npc_objs s) + length ns],
                       room_id = room_id r0\<rparr>],
                  npc_objs := npc_objs s @ map (\<lambda>n. NPC (description n)) ns\<rparr>)"
    by (simp add: j Room_fromJSON_def Room_init_def Let_def upd_room_def
                  NPCs_fromJSON_toJSON)
  with ns show ?thesis by blast
qed

lemma Player_fromJSON_extends:
  assumes "Player_fromJSON j s = (res, s')"
  shows "extends s s'"
proof -
  obtain r s1 where r: "Room_fromJSON (pj_current_room j) s = (r, s1)"
    by (cases "Room_fromJSON (pj_current_room j) s")
  with assms have "s' = s1" by (cases r) (simp_all add: Player_fromJSON_def)
  with r show ?thesis by (simp add: Room_fromJSON_extends)
qed

lemma decode_rooms_extends: "decode_rooms js tbl s = (res, s') \<Longrightarrow> extends s s'"
proof (induction js arbitrary: tbl s)
  case Nil
  then show ?case by (simp add: extends_refl)
next
  case (Cons j js)
  obtain r s1 where r: "Room_fromJSON j s = (r, s1)" by (cases "Room_fromJSON j s")
  have e1: "extends s s1" using r by (rule Room_fromJSON_extends)
  show ?case
  proof (cases r)
    case (Inl e)
    with Cons.prems r e1 show ?thesis by simp
  next
    case (Inr a)
    show ?thesis
    proof (cases "deref (room_objs s1) a")
      case None
      with Cons.prems r Inr e1 show ?thesis by simp
    next
      case (Some x)
      with Cons.prems r Inr have "decode_rooms js (dict_set tbl (room_id x) a) s1 = (res, s')"
        by simp
      then have "extends s1 s'" by (rule Cons.IH)
      with e1 show ?thesis by (rule extends_trans)
    qed
  qed
qed

lemma Game_fromJSON_extends:
  assumes "Game_fromJSON j s = (res, s')"
  shows "extends s s'"
proof -
  obtain t s1 where t: "decode_rooms (map snd (gj_rooms j)) [] s = (t, s1)"
    by (cases "decode_rooms (map snd (gj_rooms j)) [] s")
  have e1: "extends s s1" using t by (rule decode_rooms_extends)
  show ?thesis
  proof (cases t)
    case (Inl e)
    with assms t e1 show ?thesis by (simp add: Game_fromJSON_def)
  next
    case (Inr tbl)
    show ?thesis
    proof (cases "relink_doors s1 (map snd tbl)")
      case (Inl e)
      with assms t Inr e1 show ?thesis by (simp add: Game_fromJSON_def)
    next
      case u: (Inr u)
      obtain p s2 where p: "Player_fromJSON (gj_player j) s1 = (p, s2)"
        by (cases "Player_fromJSON (gj_player j) s1")
      have e2: "extends s1 s2" using p by (rule Player_fromJSON_extends)
      from assms t Inr u p have "s' = s2" by (cases p) (simp_all add: Game_fromJSON_def)
      with e1 e2 show ?thesis by (blast intro: extends_trans)
    qed
  qed
qed

lemma map_of_None_iff: "k \<notin> fst ` set tbl \<Longrightarrow> map_of tbl k = None"
  by (simp add: map_of_eq_None_iff)

section \<open>Decoded NPCs\<close>

text \<open>
  C10. Every NPC that \<open>Room.fromJSON\<close> puts into a room is a plain \<open>NPC\<close> with the
  description of its dictionary and nothing else: the dictionary of an \<open>Enemy\<close> or a
  \<open>Wizard\<close> decodes to a plain \<open>NPC\<close> with the same description, its \<open>health\<close>,
  \<open>damage\<close>, \<open>bonus_damage\<close> and \<open>healing_power\<close> entries are dropped, and the
  snapshot of any room decodes without error.
\<close>

theorem Room_fromJSON_plain_npcs:
  "(Room_fromJSON j s = (Inr a, s') \<longrightarrow>
      (\<exists>r. deref (room_objs s') a = Some r
          \<and> list_all2 (plain_copy s') (rj_npcs j) (npcs r)
          \<and> (\<forall>n \<in> set (npcs r). \<exists>d. deref (npc_objs s') n = Some (NPC d))))
   \<and> NPC_fromJSON (NPC_toJSON n) = Inr (NPC (description n))
   \<and> (Room_toJSON s0 r0 = Inr j0 \<longrightarrow> (\<exists>a1 s1. Room_fromJSON j0 s = (Inr a1, s1)))"
proof -
  have a: "\<exists>r. deref (room_objs s') a = Some r
          \<and> list_all2 (plain_copy s') (rj_npcs j) (npcs r)
          \<and> (\<forall>n \<in> set (npcs r). \<exists>d. deref (npc_objs s') n = Some (NPC d))"
    if "Room_fromJSON j s = (Inr a, s')"
  proof -
    from Room_fromJSON_result [OF that] obtain as r where
      r: "deref (room_objs s') a = Some r" and as: "npcs r = as"
      and l: "list_all2 (plain_copy s') (rj_npcs j) as"
      by fastforce
    have "\<exists>d. deref (npc_objs s') n = Some (NPC d)" if "n \<in> set as" for n
    proof -
      from that l obtain jn where "plain_copy s' jn n"
        by (auto simp add: in_set_conv_nth list_all2_conv_all_nth)
      then show ?thesis
        by (auto simp add: plain_copy_def split: option.splits jval.splits)
    qed
    with r as l show ?thesis by blast
  qed
  have c: "\<exists>a1 s1. Room_fromJSON j0 s = (Inr a1, s1)" if "Room_toJSON s0 r0 = Inr j0"
    using Room_fromJSON_toJSON [OF that, of s] by blast
  from a c show ?thesis by (simp add: NPC_fromJSON_toJSON)
qed

theorem Room_fromJSON_plain_npcs_witness:
  "Room_fromJSON \<lparr>rj_description = ''Cave'', rj_room_id = 5, rj_doors = [],
                   rj_npcs = [[(''description'', JStr ''Goblin''), (''health'', JInt 50),
                               (''damage'', JInt 15)]]\<rparr> empty_store
     = (Inr 0, \<lparr>room_objs = [\<lparr>room_description = ''Cave'', doors = [], npcs = [0],
                               room_id = 5\<rparr>],
                door_objs = [], npc_objs = [NPC ''Goblin'']\<rparr>)
   \<and> (\<exists>d. deref [NPC ''Goblin''] 0 = Some (NPC d))"
proof -
  let ?j = "\<lparr>rj_description = ''Cave'', rj_room_id = 5, rj_doors = [],
                   rj_npcs = [[(''description'', JStr ''Goblin''), (''health'', JInt 50),
                               (''damage'', JInt 15)]]\<rparr>"
  let ?s = "\<lparr>room_objs = [\<lparr>room_description = ''Cave'', doors = [], npcs = [0],
                               room_id = 5\<rparr>],
                door_objs = [], npc_objs = [NPC ''Goblin'']\<rparr>"
  have h: "Room_fromJSON ?j empty_store = (Inr 0, ?s)"
    by (simp add: Room_fromJSON_def Room_init_def upd_room_def NPC_fromJSON_def
          new_npc_def empty_store_def Let_def)
  from Room_fromJSON_plain_npcs [of ?j empty_store 0 ?s] h
  have "\<exists>r. deref (room_objs ?s) 0 = Some r
          \<and> list_all2 (plain_copy ?s) (rj_npcs ?j) (npcs r)
          \<and> (\<forall>n \<in> set (npcs r). \<exists>d. deref (npc_objs ?s) n = Some (NPC d))"
    by blast
  then have "\<exists>d. deref [NPC ''Goblin''] 0 = Some (NPC d)"
    by (simp add: deref_def)
  with h show ?thesis by blast
qed

section \<open>Doors that name an absent room\<close>

text \<open>
  C2, as the code has it. \<open>Door.fromJSON\<close> raises no error for a room id that is not a
  key of the room table: the door it returns has \<open>None\<close> for that room. And decoding a
  snapshot with \<open>Game.fromJSON\<close>, whether it succeeds or raises, only allocates new
  objects: every room, door and NPC of the store it started from is still there,
  unchanged.
\<close>

theorem Door_fromJSON_dangling:
  "(connected_room_id dj \<notin> fst ` set tbl \<longrightarrow> connected_room (Door_fromJSON dj tbl) = None)
   \<and> (opposite_room_id dj \<notin> fst ` set tbl \<longrightarrow> opposite_room (Door_fromJSON dj tbl) = None)
   \<and> extends s (snd (Game_fromJSON gj s))"
proof -
  have "extends s (snd (Game_fromJSON gj s))"
    by (rule Game_fromJSON_extends [of gj s "fst (Game_fromJSON gj s)"]) simp
  then show ?thesis by (simp add: Door_fromJSON_def Let_def map_of_None_iff)
qed

theorem Door_fromJSON_dangling_witness:
  "(7::int) \<notin> fst ` set [(0::int, 0::addr)]
   \<and> connected_room (Door_fromJSON \<lparr>dj_description = ''Gate'', connected_room_id = 7,
                                    opposite_room_id = 0\<rparr> [(0, 0)]) = None
   \<and> extends empty_store (snd (Game_fromJSON dangling_snapshot empty_store))"
  using Door_fromJSON_dangling [of "\<lparr>dj_description = ''Gate'', connected_room_id = 7,
                                    opposite_room_id = 0\<rparr>" "[(0, 0)]"
                                   empty_store dangling_snapshot]
  by simp

text \<open>
  C2, as stated, fails: the snapshot whose door names the absent room id 7 decodes
  without any error.
\<close>

theorem Game_fromJSON_dangling_counterexample:
  "Game_fromJSON dangling_snapshot empty_store
     = (Inr \<lparr>rooms = [(0, 0)],
             player = \<lparr>health = 100, damage = 20, name = ''Hero'', current_room = 1\<rparr>\<rparr>,
        \<lparr>room_objs =
           [\<lparr>room_description = ''Cell'', doors = [], npcs = [], room_id = 0\<rparr>,
            \<lparr>room_description = ''Cell'', doors = [], npcs = [], room_id = 0\<rparr>],
         door_objs = [], npc_objs = []\<rparr>)"
  by (simp add: dangling_snapshot_def Game_fromJSON_def Player_fromJSON_def
        Room_fromJSON_def Room_init_def upd_room_def deref_def empty_store_def Let_def)

section \<open>The round trip\<close>

text \<open>
  C1 at the world that \<open>Game()\<close> builds: encoding and decoding succeed, each of the two
  rooms had two doors from room 0 to room 1 before, and no room of the decoded game has
  a door.
\<close>

theorem roundtrip_drops_doors:
  "\<exists>j g' s'. Game_toJSON initial_store initial_game = Inr j
     \<and> Game_fromJSON j initial_store = (Inr g', s')
     \<and> door_ids initial_store initial_game
         = [(0, Some [(1, 0), (1, 0)]), (1, Some [(1, 0), (1, 0)])]
     \<and> door_ids s' g' = [(0, Some []), (1, Some [])]"
  by (simp add: initial_world Game_toJSON_def Player_toJSON_def Room_toJSON_def
        Door_toJSON_def py_id_def deref_def Game_fromJSON_def Player_fromJSON_def
        Room_fromJSON_def Room_init_def new_npc_def upd_room_def NPC_fromJSON_def
        Let_def door_ids_def)

section \<open>Combat\<close>

lemma npc_eq_refl: "npc_eq s a a"
  by (simp add: npc_eq_def)

lemma list_remove_member:
  "e \<in> set xs \<Longrightarrow> \<exists>ns. list_remove s xs e = Inr ns"
  by (induction xs) (auto simp add: npc_eq_refl split: sum.splits)


lemma get_enemy_Inr: "get_enemy s e = Inr en \<longleftrightarrow> deref (npc_objs s) e = Some (Enemy en)"
  by (auto simp add: get_enemy_def split: option.splits npc.splits)

lemma deref_Some: "deref h a = Some x \<longleftrightarrow> a < length h \<and> h ! a = x"
  by (auto simp add: deref_def)

lemma deref_update: "deref (h[a := x]) b = (if b < length h then Some (if a = b then x else h ! b) else None)"
  by (auto simp add: deref_def)





lemma combat_done:
  "loop_cond s g e = Inr False \<Longrightarrow> Game_combat ts e (s, g) = Some (Inr (s, g))"
  by (cases ts) simp_all

lemma combat_wins:
  assumes "\<forall>t \<in> set ts. choice t = Some 0" and "n \<le> length ts"
    and "get_enemy s e = Inr en" and "damage en = 15" and "health en \<le> 16 * int n"
    and "damage (player g) = 20" and "15 * int n < health (player g)"
    and "deref (room_objs s) (current_room (player g)) = Some r" and "e \<in> set (npcs r)"
  shows "\<exists>s' g' en'. Game_combat ts e (s, g) = Some (Inr (s', g'))
            \<and> get_enemy s' e = Inr en' \<and> \<not> is_alive en' \<and> is_alive (player g')"
  using assms
proof (induction n arbitrary: ts s g en r)
  case 0
  then have "\<not> is_alive en" and "is_alive (player g)" by (simp_all add: is_alive_def)
  with "0.prems"(3) have "loop_cond s g e = Inr False" by (simp add: loop_cond_def)
  then have "Game_combat ts e (s, g) = Some (Inr (s, g))" by (rule combat_done)
  with "0.prems"(3) \<open>\<not> is_alive en\<close> \<open>is_alive (player g)\<close> show ?case by blast
next
  case (Suc n)
  have palive: "is_alive (player g)" using Suc.prems(7) by (simp add: is_alive_def)
  show ?case
  proof (cases "is_alive en")
    case False
    with palive Suc.prems(3) have "loop_cond s g e = Inr False" by (simp add: loop_cond_def)
    then have "Game_combat ts e (s, g) = Some (Inr (s, g))" by (rule combat_done)
    with Suc.prems(3) False palive show ?thesis by blast
  next
    case True
    from Suc.prems(2) obtain t ts' where ts: "ts = t # ts'" and len: "n \<le> length ts'"
      by (cases ts) auto
    have ch: "choice t = Some 0" and chs: "\<forall>t \<in> set ts'. choice t = Some 0"
      using Suc.prems(1) ts by simp_all
    have lc: "loop_cond s g e = Inr True"
      using palive True Suc.prems(3) by (simp add: loop_cond_def)
    from attack_alive [OF palive, of en "player_roll t"] Suc.prems(6)
    obtain d where a1: "attack (player g) en (player_roll t) = Inr (take_damage en d)"
      and d: "16 \<le> d" "d \<le> 20" by auto
    define en1 where "en1 = take_damage en d"
    define s1 where "s1 = s\<lparr>npc_objs := (npc_objs s)[e := Enemy en1]\<rparr>"
    have elen: "e < length (npc_objs s)"
      using Suc.prems(3) by (simp add: get_enemy_Inr deref_Some)
    have e1: "get_enemy s1 e = Inr en1"
      using elen by (simp add: s1_def get_enemy_Inr deref_Some)
    have h1: "health en1 \<le> 16 * int n" and d1: "damage en1 = 15"
      using Suc.prems(4,5) d by (simp_all add: en1_def take_damage_def)
    show ?thesis
    proof (cases "is_alive en1")
      case alive: True
      from attack_alive [OF alive, of "player g" "enemy_roll t"] d1
      obtain d2 where a2: "attack en1 (player g) (enemy_roll t) = Inr (take_damage (player g) d2)"
        and d2: "12 \<le> d2" "d2 \<le> 15" by auto
      define g1 where "g1 = g\<lparr>player := take_damage (player g) d2\<rparr>"
      have turn: "combat_turn t e (s, g) = Inr (Continue, s1, g1)"
        using ch Suc.prems(3) a1 a2 alive
        by (simp add: combat_turn_def Let_def en1_def [symmetric] s1_def g1_def)
      have step: "Game_combat ts e (s, g) = Game_combat ts' e (s1, g1)"
        by (simp add: ts lc turn)
      have "\<exists>s' g' en'. Game_combat ts' e (s1, g1) = Some (Inr (s', g'))
            \<and> get_enemy s' e = Inr en' \<and> \<not> is_alive en' \<and> is_alive (player g')"
      proof (rule Suc.IH [OF chs len e1 d1 h1])
        show "damage (player g1) = 20"
          using Suc.prems(6) by (simp add: g1_def take_damage_def)
        show "15 * int n < health (player g1)"
          using Suc.prems(7) d2 by (simp add: g1_def take_damage_def)
        show "deref (room_objs s1) (current_room (player g1)) = Some r"
          using Suc.prems(8) by (simp add: g1_def s1_def take_damage_def)
        show "e \<in> set (npcs r)" by (rule Suc.prems(9))
      qed
      with step show ?thesis by simp
    next
      case dead: False
      from list_remove_member [OF Suc.prems(9), of s1]
      obtain ns where rm: "list_remove s1 (npcs r) e = Inr ns" by blast
      define s2 where "s2 = upd_room (current_room (player g)) (\<lambda>r. r\<lparr>npcs := ns\<rparr>) s1"
      have r1: "deref (room_objs s1) (current_room (player g)) = Some r"
        using Suc.prems(8) by (simp add: s1_def)
      have turn: "combat_turn t e (s, g) = Inr (Continue, s2, g)"
        using ch Suc.prems(3) a1 dead r1 rm
        by (simp add: combat_turn_def Let_def en1_def [symmetric] s1_def [symmetric] s2_def)
      have e2: "get_enemy s2 e = Inr en1"
        using e1 by (simp add: s2_def get_enemy_Inr upd_room_def)
      have "loop_cond s2 g e = Inr False"
        using palive e2 dead by (simp add: loop_cond_def)
      then have "Game_combat ts' e (s2, g) = Some (Inr (s2, g))" by (rule combat_done)
      then have "Game_combat ts e (s, g) = Some (Inr (s2, g))"
        by (simp add: ts lc turn)
      with e2 dead palive show ?thesis by blast
    qed
  qed
qed

text \<open>
  C9. Player(health=100, damage=20) fights Enemy(health=50, damage=15), an NPC of the
  player's room, and chooses to attack in every turn. Whatever the random draws are,
  the loop returns without error on \<open>ceil(50/16) + ceil(100/12)\<close> turns of input, and
  when it returns the enemy is not alive and the player is: the enemy's health is the
  one that reached zero first.
\<close>

theorem combat_scenario_terminates:
  assumes "health (player g) = 100" and "damage (player g) = 20"
    and "get_enemy s e = Inr en" and "health en = 50" and "damage en = 15"
    and "deref (room_objs s) (current_room (player g)) = Some r" and "e \<in> set (npcs r)"
    and "\<forall>t \<in> set ts. choice t = Some 0"
    and "int (length ts) = \<lceil>50 / 16 :: real\<rceil> + \<lceil>100 / 12 :: real\<rceil>"
  shows "\<exists>s' g' en'. Game_combat ts e (s, g) = Some (Inr (s', g'))
            \<and> get_enemy s' e = Inr en' \<and> \<not> is_alive en' \<and> is_alive (player g')"
proof -
  have "\<lceil>50 / 16 :: real\<rceil> = 4" and "\<lceil>100 / 12 :: real\<rceil> = 9" by linarith+
  with assms(9) have len: "4 \<le> length ts" by linarith
  show ?thesis
    by (rule combat_wins [OF assms(8) len assms(3) assms(5) _ assms(2) _ assms(6) assms(7)])
       (simp_all add: assms)
qed

theorem combat_scenario_terminates_witness:
  "health (player initial_game) = 100 \<and> damage (player initial_game) = 20
   \<and> get_enemy initial_store 1
       = Inr \<lparr>health = 50, damage = 15, enemy_description = ''A fierce goblin''\<rparr>
   \<and> (\<exists>s' g' en'.
        Game_combat (replicate 13 \<lparr>choice = Some 0, player_roll = 0, enemy_roll = 0\<rparr>) 1
          (initial_store, initial_game) = Some (Inr (s', g'))
        \<and> get_enemy s' 1 = Inr en' \<and> \<not> is_alive en' \<and> is_alive (player g'))"
proof -
  let ?en = "\<lparr>health = 50, damage = 15, enemy_description = ''A fierce goblin''\<rparr>"
  let ?r = "\<lparr>room_description = ''A dusty room full of old computers.'',
          doors = [0, 1], npcs = [0, 1], room_id = 0\<rparr>"
  let ?ts = "replicate 13 \<lparr>choice = Some 0, player_roll = 0, enemy_roll = 0\<rparr>"
  have h1: "health (player initial_game) = 100" by (simp add: initial_world)
  have h2: "damage (player initial_game) = 20" by (simp add: initial_world)
  have h3: "get_enemy initial_store 1 = Inr ?en"
    by (simp add: initial_world get_enemy_def deref_def)
  have h4: "health ?en = 50" and h5: "damage ?en = 15" by simp_all
  have h6: "deref (room_objs initial_store) (current_room (player initial_game)) = Some ?r"
    by (simp add: initial_world deref_def)
  have h7: "1 \<in> set (npcs ?r)" by simp
  have h8: "\<forall>t \<in> set ?ts. choice t = Some 0" by simp
  have "\<lceil>50 / 16 :: real\<rceil> = 4" and "\<lceil>100 / 12 :: real\<rceil> = 9" by linarith+
  then have h9: "int (length ?ts) = \<lceil>50 / 16 :: real\<rceil> + \<lceil>100 / 12 :: real\<rceil>" by simp
  from combat_scenario_terminates [OF h1 h2 h3 h4 h5 h6 h7 h8 h9] h1 h2 h3
  show ?thesis by blast
qed

end
